theory Spec2Isabelle
  imports Main
begin

section \<open>The LS-8 emulator of \<^verbatim>\<open>cpu_sprint.py\<close> and \<^verbatim>\<open>ls8_sprint.py\<close>\<close>

text \<open>
  The emulator is Python: registers, memory cells, the program counter and the flags
  are Python integers, which are unbounded, so they are \<^typ>\<open>int\<close> here and nothing
  is reduced modulo 256 unless the source does it. Lists are indexed the way Python
  indexes them: a negative index counts from the end, an index outside
  \<open>[-n, n)\<close> raises \<^verbatim>\<open>IndexError\<close>. An exception leaves the object as it was
  mutated up to the raise, so a raise carries the machine state of that moment.
  Memory exhaustion of the host (a shift by an astronomically large count) is outside
  the model.
\<close>

subsection \<open>Opcodes (module constants)\<close>

definition ADD :: int where "ADD = 160"   \<comment> \<open>\<^verbatim>\<open>0b10100000\<close>\<close>
definition AND :: int where "AND = 168"   \<comment> \<open>\<^verbatim>\<open>0b10101000\<close>\<close>
definition CALL :: int where "CALL = 80"  \<comment> \<open>\<^verbatim>\<open>0b01010000\<close>\<close>
definition CMP :: int where "CMP = 167"   \<comment> \<open>\<^verbatim>\<open>0b10100111\<close>\<close>
definition HLT :: int where "HLT = 1"     \<comment> \<open>\<^verbatim>\<open>0b00000001\<close>\<close>
definition JEQ :: int where "JEQ = 85"    \<comment> \<open>\<^verbatim>\<open>0b01010101\<close>\<close>
definition JMP :: int where "JMP = 84"    \<comment> \<open>\<^verbatim>\<open>0b01010100\<close>\<close>
definition JNE :: int where "JNE = 86"    \<comment> \<open>\<^verbatim>\<open>0b01010110\<close>\<close>
definition LDI :: int where "LDI = 130"   \<comment> \<open>\<^verbatim>\<open>0b10000010\<close>\<close>
definition MOD :: int where "MOD = 164"   \<comment> \<open>\<^verbatim>\<open>0b10100100\<close>\<close>
definition MUL :: int where "MUL = 162"   \<comment> \<open>\<^verbatim>\<open>0b10100010\<close>\<close>
definition NOT :: int where "NOT = 105"   \<comment> \<open>\<^verbatim>\<open>0b01101001\<close>\<close>
definition OR :: int where "OR = 170"     \<comment> \<open>\<^verbatim>\<open>0b10101010\<close>\<close>
definition POP :: int where "POP = 70"    \<comment> \<open>\<^verbatim>\<open>0b01000110\<close>\<close>
definition PRN :: int where "PRN = 71"    \<comment> \<open>\<^verbatim>\<open>0b01000111\<close>\<close>
definition PUSH :: int where "PUSH = 69"  \<comment> \<open>\<^verbatim>\<open>0b01000101\<close>\<close>
definition RET :: int where "RET = 17"    \<comment> \<open>\<^verbatim>\<open>0b00010001\<close>\<close>
definition SHL :: int where "SHL = 172"   \<comment> \<open>\<^verbatim>\<open>0b10101100\<close>\<close>
definition SHR :: int where "SHR = 173"   \<comment> \<open>\<^verbatim>\<open>0b10101101\<close>\<close>
definition XOR :: int where "XOR = 171"   \<comment> \<open>\<^verbatim>\<open>0b10101011\<close>\<close>
definition SP :: int where "SP = 7"

subsection \<open>Machine state, exceptions, output\<close>

text \<open>What a \<^verbatim>\<open>print\<close> call was given: a string, an integer or a list of strings.\<close>

datatype printed = PStr string | PInt int | PList "string list"

text \<open>
  The fields of \<^verbatim>\<open>CPU\<close> as \<^verbatim>\<open>__init__\<close> creates them; \<open>out\<close> is the standard
  output written so far, oldest first. The branch table is a constant dictionary and
  is the function \<open>branchtable\<close> below.
\<close>

record CPU =
  reg :: "int list"
  pc :: int
  ir :: int
  fl :: int
  ram :: "int list"
  halted :: bool
  out :: "printed list"

datatype error =
    IndexError                \<comment> \<open>list index out of range\<close>
  | KeyError int              \<comment> \<open>the branch table has no such key\<close>
  | UnsupportedALU            \<comment> \<open>\<^verbatim>\<open>Exception("Unsupported ALU operation")\<close>\<close>
  | ValueError                \<comment> \<open>negative shift count\<close>
  | SystemExit int            \<comment> \<open>\<^verbatim>\<open>sys.exit(code)\<close>\<close>
  | OSError                   \<comment> \<open>\<^verbatim>\<open>open\<close> failed otherwise than by a missing file\<close>

type_synonym 'a res = "(error \<times> CPU) + 'a"

definition bnd :: "'a res \<Rightarrow> ('a \<Rightarrow> 'b res) \<Rightarrow> 'b res" where
  "bnd m f = (case m of Inl e \<Rightarrow> Inl e | Inr x \<Rightarrow> f x)"

definition CPU_init :: CPU where
  "CPU_init = \<lparr> reg = (replicate 8 0)[7 := 244], pc = 0, ir = 0, fl = 0,
                ram = replicate 256 0, halted = False, out = [] \<rparr>"

subsection \<open>Python list indexing\<close>

definition py_index :: "nat \<Rightarrow> int \<Rightarrow> nat option" where
  "py_index n i =
     (if 0 \<le> i \<and> i < int n then Some (nat i)
      else if - int n \<le> i \<and> i < 0 then Some (nat (int n + i))
      else None)"

definition reg_get :: "CPU \<Rightarrow> int \<Rightarrow> int res" where
  "reg_get s i =
     (case py_index (length (reg s)) i of
        None \<Rightarrow> Inl (IndexError, s)
      | Some k \<Rightarrow> Inr (reg s ! k))"

definition reg_set :: "CPU \<Rightarrow> int \<Rightarrow> int \<Rightarrow> CPU res" where
  "reg_set s i v =
     (case py_index (length (reg s)) i of
        None \<Rightarrow> Inl (IndexError, s)
      | Some k \<Rightarrow> Inr (s\<lparr>reg := (reg s)[k := v]\<rparr>))"

definition ram_read :: "CPU \<Rightarrow> int \<Rightarrow> int res" where
  "ram_read s address =
     (case py_index (length (ram s)) address of
        None \<Rightarrow> Inl (IndexError, s)
      | Some k \<Rightarrow> Inr (ram s ! k))"

definition ram_write :: "CPU \<Rightarrow> int \<Rightarrow> int \<Rightarrow> CPU res" where
  "ram_write s address v =
     (case py_index (length (ram s)) address of
        None \<Rightarrow> Inl (IndexError, s)
      | Some k \<Rightarrow> Inr (s\<lparr>ram := (ram s)[k := v]\<rparr>))"

subsection \<open>Handlers of the branch table\<close>

definition call :: "CPU \<Rightarrow> int \<Rightarrow> int \<Rightarrow> CPU res" where
  "call s operand_a operand_b =
     bnd (reg_get s SP) (\<lambda>sp.
     bnd (reg_set s SP (sp - 1)) (\<lambda>s1.
     bnd (reg_get s1 SP) (\<lambda>sp1.
     bnd (ram_write s1 sp1 (pc s1 + 2)) (\<lambda>s2.
     bnd (reg_get s2 operand_a) (\<lambda>target.
     Inr (s2\<lparr>pc := target\<rparr>))))))"

definition hlt :: "CPU \<Rightarrow> int \<Rightarrow> int \<Rightarrow> CPU res" where
  "hlt s operand_a operand_b = Inl (SystemExit (- 1), s\<lparr>halted := True\<rparr>)"

definition jeq :: "CPU \<Rightarrow> int \<Rightarrow> int \<Rightarrow> CPU res" where
  "jeq s operand_a operand_b =
     (if fl s = 1 then bnd (reg_get s operand_a) (\<lambda>target. Inr (s\<lparr>pc := target\<rparr>))
      else Inr (s\<lparr>pc := pc s + 2\<rparr>))"

definition jmp :: "CPU \<Rightarrow> int \<Rightarrow> int \<Rightarrow> CPU res" where
  "jmp s operand_a operand_b =
     bnd (reg_get s operand_a) (\<lambda>target. Inr (s\<lparr>pc := target\<rparr>))"

definition jne :: "CPU \<Rightarrow> int \<Rightarrow> int \<Rightarrow> CPU res" where
  "jne s operand_a operand_b =
     (if fl s \<noteq> 1 then bnd (reg_get s operand_a) (\<lambda>target. Inr (s\<lparr>pc := target\<rparr>))
      else Inr (s\<lparr>pc := pc s + 2\<rparr>))"

definition ldi :: "CPU \<Rightarrow> int \<Rightarrow> int \<Rightarrow> CPU res" where
  "ldi s operand_a operand_b = reg_set s operand_a operand_b"

definition pop :: "CPU \<Rightarrow> int \<Rightarrow> int \<Rightarrow> CPU res" where
  "pop s operand_a operand_b =
     bnd (reg_get s SP) (\<lambda>sp.
     bnd (ram_read s sp) (\<lambda>v.
     bnd (reg_set s operand_a v) (\<lambda>s1.
     bnd (reg_get s1 SP) (\<lambda>sp1.
     reg_set s1 SP (sp1 + 1)))))"

definition prn :: "CPU \<Rightarrow> int \<Rightarrow> int \<Rightarrow> CPU res" where
  "prn s operand_a operand_b =
     bnd (reg_get s operand_a) (\<lambda>v. Inr (s\<lparr>out := out s @ [PInt v]\<rparr>))"

definition push :: "CPU \<Rightarrow> int \<Rightarrow> int \<Rightarrow> CPU res" where
  "push s operand_a operand_b =
     bnd (reg_get s SP) (\<lambda>sp.
     bnd (reg_set s SP (sp - 1)) (\<lambda>s1.
     bnd (reg_get s1 SP) (\<lambda>sp1.
     bnd (reg_get s1 operand_a) (\<lambda>v.
     ram_write s1 sp1 v))))"

definition ret :: "CPU \<Rightarrow> int \<Rightarrow> int \<Rightarrow> CPU res" where
  "ret s operand_a operand_b =
     bnd (reg_get s SP) (\<lambda>sp.
     bnd (ram_read s sp) (\<lambda>v.
     Inr (s\<lparr>pc := v\<rparr>)))"

definition branchtable :: "int \<Rightarrow> (CPU \<Rightarrow> int \<Rightarrow> int \<Rightarrow> CPU res) option" where
  "branchtable =
     [CALL \<mapsto> call, HLT \<mapsto> hlt, JEQ \<mapsto> jeq, JMP \<mapsto> jmp, JNE \<mapsto> jne,
      LDI \<mapsto> ldi, POP \<mapsto> pop, PRN \<mapsto> prn, PUSH \<mapsto> push, RET \<mapsto> ret]"

subsection \<open>The ALU\<close>

text \<open>
  An augmented assignment \<^verbatim>\<open>reg[a] op= reg[b]\<close> reads \<^verbatim>\<open>reg[a]\<close>, then
  \<^verbatim>\<open>reg[b]\<close>, then stores: \<open>alu_store\<close> is that sequence for a binary operator.
\<close>

definition alu_store :: "CPU \<Rightarrow> int \<Rightarrow> int \<Rightarrow> (int \<Rightarrow> int \<Rightarrow> int) \<Rightarrow> CPU res" where
  "alu_store s reg_a reg_b f =
     bnd (reg_get s reg_a) (\<lambda>x.
     bnd (reg_get s reg_b) (\<lambda>y.
     reg_set s reg_a (f x y)))"

definition alu_shift :: "CPU \<Rightarrow> int \<Rightarrow> int \<Rightarrow> (nat \<Rightarrow> int \<Rightarrow> int) \<Rightarrow> CPU res" where
  "alu_shift s reg_a reg_b f =
     bnd (reg_get s reg_a) (\<lambda>x.
     bnd (reg_get s reg_b) (\<lambda>y.
     if y < 0 then Inl (ValueError, s) else reg_set s reg_a (f (nat y) x)))"

definition alu :: "CPU \<Rightarrow> int \<Rightarrow> int \<Rightarrow> int \<Rightarrow> CPU res" where
  "alu s instruction reg_a reg_b =
     (if instruction = ADD then alu_store s reg_a reg_b (\<lambda>x y. x + y)
      else if instruction = AND then alu_store s reg_a reg_b (\<lambda>x y. and x y)
      else if instruction = CMP then
        bnd (reg_get s reg_a) (\<lambda>x.
        bnd (reg_get s reg_b) (\<lambda>y.
        if x < y then Inr (s\<lparr>fl := 4\<rparr>)
        else bnd (reg_get s reg_a) (\<lambda>x'.
             bnd (reg_get s reg_b) (\<lambda>y'.
             if x' > y' then Inr (s\<lparr>fl := 2\<rparr>) else Inr (s\<lparr>fl := 1\<rparr>)))))
      else if instruction = MOD then
        bnd (reg_get s reg_b) (\<lambda>y.
        if y = 0 then hlt s reg_a reg_b
        else bnd (reg_get s reg_a) (\<lambda>x.
             bnd (reg_get s reg_b) (\<lambda>y'.
             reg_set s reg_a (x mod y'))))
      else if instruction = MUL then alu_store s reg_a reg_b (\<lambda>x y. x * y)
      else if instruction = NOT then
        bnd (reg_get s reg_a) (\<lambda>x. reg_set s reg_a (not x))
      else if instruction = OR then alu_store s reg_a reg_b (\<lambda>x y. or x y)
      else if instruction = SHL then alu_shift s reg_a reg_b push_bit
      else if instruction = SHR then alu_shift s reg_a reg_b drop_bit
      else if instruction = XOR then alu_store s reg_a reg_b (\<lambda>x y. xor x y)
      else Inl (UnsupportedALU, s))"

subsection \<open>The run loop\<close>

text \<open>The three fields the loop body decodes from the instruction register.\<close>

definition num_args :: "int \<Rightarrow> int" where
  "num_args i = drop_bit 6 i"

definition is_alu_op :: "int \<Rightarrow> int" where
  "is_alu_op i = and (drop_bit 5 i) 1"

definition pc_setter :: "int \<Rightarrow> int" where
  "pc_setter i = and (drop_bit 4 i) 1"

text \<open>The \<^verbatim>\<open>if is_alu_op == 1 ... else ...\<close> of the loop body.\<close>

definition dispatch :: "CPU \<Rightarrow> int \<Rightarrow> int \<Rightarrow> CPU res" where
  "dispatch s operand_a operand_b =
     (if is_alu_op (ir s) = 1 then alu s (ir s) operand_a operand_b
      else case branchtable (ir s) of
             None \<Rightarrow> Inl (KeyError (ir s), s)
           | Some handler \<Rightarrow> handler s operand_a operand_b)"

text \<open>One pass through the body of \<^verbatim>\<open>while not self.halted\<close>.\<close>

definition cycle :: "CPU \<Rightarrow> CPU res" where
  "cycle s =
     bnd (ram_read s (pc s)) (\<lambda>i.
     let s1 = s\<lparr>ir := i\<rparr> in
     bnd (ram_read s1 (pc s1 + 1)) (\<lambda>operand_a.
     bnd (ram_read s1 (pc s1 + 2)) (\<lambda>operand_b.
     bnd (dispatch s1 operand_a operand_b) (\<lambda>s2.
     if pc_setter i \<noteq> 1 then Inr (s2\<lparr>pc := pc s2 + (num_args i + 1)\<rparr>)
     else Inr s2))))"

text \<open>
  \<^verbatim>\<open>CPU.run\<close>. The loop need not end (a jump to itself), so the result is an
  option: \<open>None\<close> is a run that never returns, \<open>Some (Inl (e, s))\<close> one that raised
  \<open>e\<close> in state \<open>s\<close>, \<open>Some (Inr s)\<close> one that left the loop normally.
\<close>

partial_function (option) run :: "CPU \<Rightarrow> (CPU res) option" where
  "run s =
     (if halted s then Some (Inr s)
      else case cycle s of
             Inl e \<Rightarrow> Some (Inl e)
           | Inr s' \<Rightarrow> run s')"

text \<open>The first \<open>n\<close> iterations of the same loop.\<close>

fun cycles :: "nat \<Rightarrow> CPU \<Rightarrow> CPU res" where
  "cycles 0 s = Inr s"
| "cycles (Suc n) s = (if halted s then Inr s else bnd (cycle s) (cycles n))"

subsection \<open>Loading and the main program\<close>

text \<open>
  What \<^verbatim>\<open>open(filename)\<close> gives: the lines of the file, \<^verbatim>\<open>FileNotFoundError\<close>,
  or another failure of the operating system.
\<close>

datatype opened = Lines "string list" | FileNotFound | OpenFailed

text \<open>
  The loop over the lines. \<open>int_base2\<close> stands for Python's built-in
  \<^verbatim>\<open>int(bin_num.strip(), 2)\<close>, \<open>None\<close> where it raises. The bare \<^verbatim>\<open>except\<close>
  also catches the \<^verbatim>\<open>IndexError\<close> of a write past the end of memory, before the
  address is advanced.
\<close>

fun load_lines :: "(string \<Rightarrow> int option) \<Rightarrow> string list \<Rightarrow> int \<Rightarrow> CPU \<Rightarrow> CPU" where
  "load_lines int_base2 [] address s = s"
| "load_lines int_base2 (line # rest) address s =
     (let bin_num = takeWhile (\<lambda>c. c \<noteq> CHR ''#'') line in
      case int_base2 bin_num of
        None \<Rightarrow> load_lines int_base2 rest address s
      | Some x \<Rightarrow>
          (case ram_write s address x of
             Inl e \<Rightarrow> load_lines int_base2 rest address s
           | Inr s' \<Rightarrow> load_lines int_base2 rest (address + 1) s'))"

definition load :: "(string \<Rightarrow> opened) \<Rightarrow> (string \<Rightarrow> int option) \<Rightarrow> CPU \<Rightarrow> string \<Rightarrow> CPU res" where
  "load fs int_base2 s filename =
     (case fs filename of
        Lines ls \<Rightarrow> Inr (load_lines int_base2 ls 0 s)
      | FileNotFound \<Rightarrow> Inr (s\<lparr>out := out s @ [PStr ''File not found.'']\<rparr>)
      | OpenFailed \<Rightarrow> Inl (OSError, s))"

text \<open>
  The script \<^verbatim>\<open>ls8_sprint.py\<close>: either the two usage lines and no machine, or a
  machine that is loaded and then run. \<open>LoadRaised\<close> is an exception that left
  \<^verbatim>\<open>load\<close>, before \<^verbatim>\<open>run\<close> was called; \<open>Ran\<close> carries what \<^verbatim>\<open>cpu.run()\<close>
  did.
\<close>

datatype outcome =
    Usage "printed list"
  | LoadRaised "error \<times> CPU"
  | Ran "(CPU res) option"

definition main :: "(string \<Rightarrow> opened) \<Rightarrow> (string \<Rightarrow> int option) \<Rightarrow> string list \<Rightarrow> outcome" where
  "main fs int_base2 argv =
     (if length argv \<noteq> 2
      then Usage [PStr ''Wrong number of arguments passed in.'', PList argv]
      else case load fs int_base2 CPU_init (argv ! 1) of
             Inl e \<Rightarrow> LoadRaised e
           | Inr cpu \<Rightarrow> Ran (run cpu))"

text \<open>The instruction set: every opcode constant of the module.\<close>

definition opcodes :: "int set" where
  "opcodes = {ADD, AND, CALL, CMP, HLT, JEQ, JMP, JNE, LDI, MOD, MUL, NOT, OR, POP, PRN, PUSH,
              RET, SHL, SHR, XOR}"

text \<open>A file system on which no file exists.\<close>

definition no_files :: "string \<Rightarrow> opened" where
  "no_files filename = FileNotFound"

section \<open>Basic facts\<close>

lemmas opcode_defs =
  ADD_def AND_def CALL_def CMP_def HLT_def JEQ_def JMP_def JNE_def LDI_def MOD_def
  MUL_def NOT_def OR_def POP_def PRN_def PUSH_def RET_def SHL_def SHR_def XOR_def

lemma bnd_Inr [simp]: "bnd (Inr x) f = f x"
  by (simp add: bnd_def)

lemma bnd_Inl [simp]: "bnd (Inl e) f = Inl e"
  by (simp add: bnd_def)

lemma bnd_eq_Inr: "bnd m f = Inr y \<longleftrightarrow> (\<exists>x. m = Inr x \<and> f x = Inr y)"
  by (cases m) simp_all

lemma py_index_nonneg: "0 \<le> i \<Longrightarrow> i < int n \<Longrightarrow> py_index n i = Some (nat i)"
  by (simp add: py_index_def)

lemma py_index_neg: "- int n \<le> i \<Longrightarrow> i < 0 \<Longrightarrow> py_index n i = Some (nat (int n + i))"
  by (simp add: py_index_def)

lemma py_index_mod:
  "- int n \<le> i \<Longrightarrow> i < int n \<Longrightarrow> py_index n i = Some (nat (i mod int n))"
proof (cases "0 \<le> i")
  case True
  assume "i < int n"
  with True show ?thesis by (simp add: py_index_def)
next
  case False
  assume lo: "- int n \<le> i"
  from False lo have "i mod int n = int n + i"
    by (smt (verit) mod_add_self1 mod_pos_pos_trivial)
  with False lo show ?thesis by (simp add: py_index_def)
qed

lemma py_index_Some_iff: "(\<exists>k. py_index n i = Some k) \<longleftrightarrow> - int n \<le> i \<and> i < int n"
  by (auto simp: py_index_def)

lemma py_index_less: "py_index n i = Some k \<Longrightarrow> k < n"
  by (auto simp: py_index_def split: if_splits)

lemma reg_get_valid:
  "length (reg s) = 8 \<Longrightarrow> 0 \<le> a \<Longrightarrow> a < 8 \<Longrightarrow> reg_get s a = Inr (reg s ! nat a)"
  by (simp add: reg_get_def py_index_nonneg)

lemma reg_set_valid:
  "length (reg s) = 8 \<Longrightarrow> 0 \<le> a \<Longrightarrow> a < 8 \<Longrightarrow>
   reg_set s a v = Inr (s\<lparr>reg := (reg s)[nat a := v]\<rparr>)"
  by (simp add: reg_set_def py_index_nonneg)

lemma ram_read_valid:
  "length (ram s) = 256 \<Longrightarrow> - 256 \<le> i \<Longrightarrow> i < 256 \<Longrightarrow>
   ram_read s i = Inr (ram s ! nat (i mod 256))"
  using py_index_mod [of 256 i] by (simp add: ram_read_def)

lemma ram_write_valid:
  "length (ram s) = 256 \<Longrightarrow> - 256 \<le> i \<Longrightarrow> i < 256 \<Longrightarrow>
   ram_write s i v = Inr (s\<lparr>ram := (ram s)[nat (i mod 256) := v]\<rparr>)"
  using py_index_mod [of 256 i] by (simp add: ram_write_def)

lemma CPU_init_reg: "reg CPU_init = [0, 0, 0, 0, 0, 0, 0, 244]"
  by (simp add: CPU_init_def numeral_eq_Suc)

lemma CPU_init_fields:
  "pc CPU_init = 0" "ir CPU_init = 0" "fl CPU_init = 0" "ram CPU_init = replicate 256 0"
  "halted CPU_init = False" "out CPU_init = []"
  by (simp_all add: CPU_init_def)

lemma ram_read_Inr_iff:
  "ram_read s i = Inr v \<longleftrightarrow> (\<exists>k. py_index (length (ram s)) i = Some k \<and> v = ram s ! k)"
  by (auto simp: ram_read_def split: option.splits)

lemma reg_get_Inr_iff:
  "reg_get s i = Inr v \<longleftrightarrow> (\<exists>k. py_index (length (reg s)) i = Some k \<and> v = reg s ! k)"
  by (auto simp: reg_get_def split: option.splits)

lemma ram_read_mem: "ram_read s i = Inr v \<Longrightarrow> v \<in> set (ram s)"
  by (auto simp: ram_read_Inr_iff dest: py_index_less)

lemma reg_get_mem: "reg_get s i = Inr v \<Longrightarrow> v \<in> set (reg s)"
  by (auto simp: reg_get_Inr_iff dest: py_index_less)

lemma ram_read_ir: "ram_read (s\<lparr>ir := i\<rparr>) x = Inr v \<longleftrightarrow> ram_read s x = Inr v"
  by (simp add: ram_read_Inr_iff)

lemma ram_read_range:
  "length (ram s) = 256 \<Longrightarrow> ram_read s i = Inr v \<Longrightarrow> - 256 \<le> i \<and> i < 256"
  using py_index_Some_iff [of 256 i] by (auto simp: ram_read_Inr_iff)

lemma cycle_Inr_iff:
  "cycle s = Inr s' \<longleftrightarrow>
     (\<exists>i a b s2. ram_read s (pc s) = Inr i
        \<and> ram_read s (pc s + 1) = Inr a
        \<and> ram_read s (pc s + 2) = Inr b
        \<and> dispatch (s\<lparr>ir := i\<rparr>) a b = Inr s2
        \<and> s' = (if pc_setter i \<noteq> 1 then s2\<lparr>pc := pc s2 + (num_args i + 1)\<rparr> else s2))"
  by (auto simp: cycle_def Let_def bnd_eq_Inr ram_read_ir)

lemma reg_set_Inr: "reg_set s i v = Inr s' \<Longrightarrow> pc s' = pc s \<and> ram s' = ram s"
  by (auto simp: reg_set_def split: option.splits)

lemma ram_write_Inr: "ram_write s i v = Inr s' \<Longrightarrow> pc s' = pc s \<and> reg s' = reg s"
  by (auto simp: ram_write_def split: option.splits)

lemma alu_keeps_pc: "alu s i a b = Inr s' \<Longrightarrow> pc s' = pc s"
  by (auto simp: alu_def alu_store_def alu_shift_def hlt_def bnd_eq_Inr
      dest!: reg_set_Inr split: if_splits)

lemma alu_Inr_opcode:
  "alu s i a b = Inr s' \<Longrightarrow> i \<in> {ADD, AND, CMP, MOD, MUL, NOT, OR, SHL, SHR, XOR}"
  by (simp add: alu_def split: if_splits)

lemma and_drop_bit_one: "and (drop_bit n (i::int)) 1 = of_bool (bit i n)"
  by (simp add: and_one_eq bit_iff_odd_drop_bit mod2_eq_if)

lemma decode_fields:
  "num_args i = i div 64" "is_alu_op i = of_bool (bit i 5)" "pc_setter i = of_bool (bit i 4)"
  by (simp_all add: num_args_def is_alu_op_def pc_setter_def and_drop_bit_one)
    (simp add: drop_bit_eq_div)


lemma pc_setter_opcodes:
  "pc_setter CALL = 1" "pc_setter JEQ = 1" "pc_setter JMP = 1" "pc_setter JNE = 1"
  "pc_setter RET = 1" "pc_setter HLT = 0" "pc_setter LDI = 0" "pc_setter POP = 0"
  "pc_setter PRN = 0" "pc_setter PUSH = 0"
  "pc_setter ADD = 0" "pc_setter AND = 0" "pc_setter CMP = 0" "pc_setter MOD = 0"
  "pc_setter MUL = 0" "pc_setter NOT = 0" "pc_setter OR = 0" "pc_setter SHL = 0"
  "pc_setter SHR = 0" "pc_setter XOR = 0"
  by (simp_all add: pc_setter_def opcode_defs drop_bit_eq_div and_one_eq)

lemma num_args_opcodes:
  "num_args LDI = 2" "num_args POP = 1" "num_args PRN = 1" "num_args PUSH = 1"
  "num_args ADD = 2" "num_args AND = 2" "num_args CMP = 2" "num_args MOD = 2"
  "num_args MUL = 2" "num_args NOT = 1" "num_args OR = 2" "num_args SHL = 2"
  "num_args SHR = 2" "num_args XOR = 2"
  by (simp_all add: num_args_def opcode_defs drop_bit_eq_div)

lemma branchtable_cases:
  "branchtable i = Some h \<Longrightarrow>
     i = CALL \<and> h = call \<or> i = HLT \<and> h = hlt \<or> i = JEQ \<and> h = jeq \<or> i = JMP \<and> h = jmp
   \<or> i = JNE \<and> h = jne \<or> i = LDI \<and> h = ldi \<or> i = POP \<and> h = pop \<or> i = PRN \<and> h = prn
   \<or> i = PUSH \<and> h = push \<or> i = RET \<and> h = ret"
  by (simp add: branchtable_def split: if_splits)

lemma handler_keeps_pc:
  assumes "branchtable i = Some h" "pc_setter i \<noteq> 1" "h s a b = Inr s'"
  shows "pc s' = pc s \<and> 1 \<le> num_args i \<and> num_args i \<le> 2"
  using branchtable_cases [OF assms(1)] assms(2,3)
  by (auto simp: pc_setter_opcodes num_args_opcodes hlt_def ldi_def pop_def prn_def push_def
      bnd_eq_Inr dest!: reg_set_Inr ram_write_Inr)

lemma handler_sets_pc:
  assumes "branchtable i = Some h" "pc_setter i = 1" "h s a b = Inr s'"
  shows "pc s' \<in> set (reg s') \<union> set (ram s') \<union> {pc s + 2}"
  using branchtable_cases [OF assms(1)] assms(2,3)
  by (auto simp: pc_setter_opcodes call_def jeq_def jmp_def jne_def ret_def
      bnd_eq_Inr dest!: reg_get_mem ram_read_mem split: if_splits)

lemma dispatch_keeps_pc:
  assumes "dispatch s a b = Inr s'" "pc_setter (ir s) \<noteq> 1"
  shows "pc s' = pc s \<and> 1 \<le> num_args (ir s) \<and> num_args (ir s) \<le> 2"
proof (cases "is_alu_op (ir s) = 1")
  case True
  with assms(1) have a: "alu s (ir s) a b = Inr s'" by (simp add: dispatch_def)
  from alu_Inr_opcode [OF a] have "1 \<le> num_args (ir s) \<and> num_args (ir s) \<le> 2"
    by (auto simp: num_args_opcodes)
  with alu_keeps_pc [OF a] show ?thesis by simp
next
  case False
  with assms show ?thesis
    by (auto simp: dispatch_def dest: handler_keeps_pc split: option.splits)
qed

lemma dispatch_sets_pc:
  assumes "dispatch s a b = Inr s'" "pc_setter (ir s) = 1"
  shows "pc s' \<in> set (reg s') \<union> set (ram s') \<union> {pc s + 2}"
proof (cases "is_alu_op (ir s) = 1")
  case True
  with assms(1) have a: "alu s (ir s) a b = Inr s'" by (simp add: dispatch_def)
  from alu_Inr_opcode [OF a] assms(2) show ?thesis
    by (auto simp: pc_setter_opcodes)
next
  case False
  with assms show ?thesis
    by (auto simp: dispatch_def dest: handler_sets_pc split: option.splits)
qed

lemma run_raises: "\<not> halted s \<Longrightarrow> cycle s = Inl e \<Longrightarrow> run s = Some (Inl e)"
  by (subst run.simps) simp

lemma run_step: "\<not> halted s \<Longrightarrow> cycle s = Inr s' \<Longrightarrow> run s = run s'"
  by (subst run.simps) simp

lemma cycles_run: "cycles n s = Inr s' \<Longrightarrow> run s = run s'"
proof (induction n arbitrary: s)
  case 0
  then show ?case by simp
next
  case (Suc n)
  show ?case
  proof (cases "halted s")
    case True
    with Suc.prems show ?thesis by simp
  next
    case False
    with Suc.prems obtain t where t: "cycle s = Inr t" "cycles n t = Inr s'"
      by (auto simp: bnd_eq_Inr)
    from run_step [OF False t(1)] Suc.IH [OF t(2)] show ?thesis by simp
  qed
qed

lemma cycle_unknown_opcode:
  assumes "ram_read s (pc s) = Inr i" "ram_read s (pc s + 1) = Inr a"
    "ram_read s (pc s + 2) = Inr b" "i \<notin> opcodes"
  shows "cycle s = Inl (if bit i 5 then UnsupportedALU else KeyError i, s\<lparr>ir := i\<rparr>)"
proof -
  have rd: "ram_read (s\<lparr>ir := i\<rparr>) (pc s + 1) = Inr a" "ram_read (s\<lparr>ir := i\<rparr>) (pc s + 2) = Inr b"
    using assms by (simp_all add: ram_read_ir)
  have "alu (s\<lparr>ir := i\<rparr>) i a b = Inl (UnsupportedALU, s\<lparr>ir := i\<rparr>)"
    using assms(4) by (simp add: alu_def opcodes_def)
  moreover have "branchtable i = None"
    using assms(4) by (simp add: branchtable_def opcodes_def)
  ultimately have "dispatch (s\<lparr>ir := i\<rparr>) a b
      = Inl (if bit i 5 then UnsupportedALU else KeyError i, s\<lparr>ir := i\<rparr>)"
    by (simp add: dispatch_def decode_fields)
  then show ?thesis
    using assms(1) rd by (simp add: cycle_def Let_def)
qed

section \<open>Properties of the ALU\<close>

text \<open>
  Claim C1, as the code has it. For register indices \<open>a\<close>, \<open>b\<close> in 0..7, the add
  opcode leaves in \<open>reg[a]\<close> the sum of the old \<open>reg[a]\<close> and \<open>reg[b]\<close> as an
  unbounded integer, and the multiply opcode their product: nothing is reduced modulo
  256. The resulting state differs from the old one in \<open>reg[a]\<close> only, so no other
  register and no flag is touched.
\<close>

theorem alu_add_mul_exact:
  assumes "length (reg s) = 8" "0 \<le> a" "a < 8" "0 \<le> b" "b < 8"
  shows "alu s ADD a b = Inr (s\<lparr>reg := (reg s)[nat a := reg s ! nat a + reg s ! nat b]\<rparr>)
       \<and> alu s MUL a b = Inr (s\<lparr>reg := (reg s)[nat a := reg s ! nat a * reg s ! nat b]\<rparr>)"
  using assms
  by (simp add: alu_def alu_store_def opcode_defs reg_get_valid reg_set_valid)

theorem alu_add_mul_exact_witness:
  "length (reg (CPU_init\<lparr>reg := [3, 5, 0, 0, 0, 0, 0, 244]\<rparr>)) = 8
   \<and> alu (CPU_init\<lparr>reg := [3, 5, 0, 0, 0, 0, 0, 244]\<rparr>) ADD 0 1
       = Inr (CPU_init\<lparr>reg := [8, 5, 0, 0, 0, 0, 0, 244]\<rparr>)
   \<and> alu (CPU_init\<lparr>reg := [3, 5, 0, 0, 0, 0, 0, 244]\<rparr>) MUL 0 1
       = Inr (CPU_init\<lparr>reg := [15, 5, 0, 0, 0, 0, 0, 244]\<rparr>)"
  using alu_add_mul_exact [of "CPU_init\<lparr>reg := [3, 5, 0, 0, 0, 0, 0, 244]\<rparr>" 0 1]
  by simp

text \<open>
  Claim C1, as the spec states it, fails: with \<open>reg[0] = 200\<close> and \<open>reg[1] = 100\<close>,
  both in 0..255, the add opcode leaves 300 in \<open>reg[0]\<close>, not \<open>300 mod 256 = 44\<close>.
\<close>

theorem alu_add_no_wrap_counterexample:
  "alu (CPU_init\<lparr>reg := [200, 100, 0, 0, 0, 0, 0, 244]\<rparr>) ADD 0 1
     = Inr (CPU_init\<lparr>reg := [300, 100, 0, 0, 0, 0, 0, 244]\<rparr>)
   \<and> (300::int) \<noteq> (200 + 100) mod 256"
  by (simp add: alu_def alu_store_def opcode_defs reg_get_def reg_set_def py_index_def)

text \<open>
  Claim C4. For register indices \<open>a\<close>, \<open>b\<close> in 0..7: when \<open>reg[b]\<close> is 0 the modulo
  opcode goes through the halt handler, which sets the halted flag and leaves by
  \<^verbatim>\<open>sys.exit(-1)\<close>, with every register as it was; when \<open>reg[b]\<close> is not 0 it
  stores \<open>reg[a] mod reg[b]\<close> into \<open>reg[a]\<close>, changes nothing else and does not halt.
\<close>

theorem alu_mod_zero_halts:
  assumes "length (reg s) = 8" "0 \<le> a" "a < 8" "0 \<le> b" "b < 8"
  shows "(reg s ! nat b = 0 \<longrightarrow> alu s MOD a b = Inl (SystemExit (- 1), s\<lparr>halted := True\<rparr>))
       \<and> (reg s ! nat b \<noteq> 0 \<longrightarrow>
            alu s MOD a b = Inr (s\<lparr>reg := (reg s)[nat a := reg s ! nat a mod reg s ! nat b]\<rparr>))"
  using assms
  by (simp add: alu_def hlt_def opcode_defs reg_get_valid reg_set_valid)

theorem alu_mod_zero_halts_witness:
  "alu (CPU_init\<lparr>reg := [17, 0, 5, 0, 0, 0, 0, 244]\<rparr>) MOD 0 1
     = Inl (SystemExit (- 1), CPU_init\<lparr>reg := [17, 0, 5, 0, 0, 0, 0, 244], halted := True\<rparr>)
   \<and> alu (CPU_init\<lparr>reg := [17, 0, 5, 0, 0, 0, 0, 244]\<rparr>) MOD 0 2
     = Inr (CPU_init\<lparr>reg := [2, 0, 5, 0, 0, 0, 0, 244]\<rparr>)"
  using alu_mod_zero_halts [of "CPU_init\<lparr>reg := [17, 0, 5, 0, 0, 0, 0, 244]\<rparr>" 0 1]
    alu_mod_zero_halts [of "CPU_init\<lparr>reg := [17, 0, 5, 0, 0, 0, 0, 244]\<rparr>" 0 2]
  by simp

text \<open>
  Claim C5. For register indices \<open>a\<close>, \<open>b\<close> in 0..7 and any register values, the
  compare opcode changes the flags register only, and sets it to 4 (the less-than bit,
  bit 2) if \<open>reg[a] < reg[b]\<close>, to 2 (the greater-than bit, bit 1) if
  \<open>reg[a] > reg[b]\<close>, and to 1 (the equal bit, bit 0) otherwise: exactly one bit of
  the new flags is set, the one of the case that holds.
\<close>

theorem alu_cmp_one_flag:
  assumes "length (reg s) = 8" "0 \<le> a" "a < 8" "0 \<le> b" "b < 8"
  shows "\<exists>f. alu s CMP a b = Inr (s\<lparr>fl := f\<rparr>)
           \<and> f = (if reg s ! nat a < reg s ! nat b then 4
                  else if reg s ! nat a > reg s ! nat b then 2 else 1)
           \<and> (\<forall>n. bit f n \<longleftrightarrow>
                 (n = 2 \<and> reg s ! nat a < reg s ! nat b)
               \<or> (n = 1 \<and> reg s ! nat a > reg s ! nat b)
               \<or> (n = 0 \<and> reg s ! nat a = reg s ! nat b))"
proof -
  have b4: "bit (4::int) n \<longleftrightarrow> n = 2" for n
    using bit_exp_iff [of 2 n, where ?'a = int] by auto
  have b2: "bit (2::int) n \<longleftrightarrow> n = 1" for n
    using bit_exp_iff [of 1 n, where ?'a = int] by auto
  have b1: "bit (1::int) n \<longleftrightarrow> n = 0" for n
    by (simp add: bit_1_iff)
  show ?thesis
    using assms
    by (auto simp: alu_def opcode_defs reg_get_valid b4 b2 b1)
qed

theorem alu_cmp_one_flag_witness:
  "alu (CPU_init\<lparr>reg := [0, 255, 0, 0, 0, 0, 0, 244]\<rparr>) CMP 0 1
     = Inr (CPU_init\<lparr>reg := [0, 255, 0, 0, 0, 0, 0, 244], fl := 4\<rparr>)
   \<and> alu (CPU_init\<lparr>reg := [0, 255, 0, 0, 0, 0, 0, 244]\<rparr>) CMP 1 0
     = Inr (CPU_init\<lparr>reg := [0, 255, 0, 0, 0, 0, 0, 244], fl := 2\<rparr>)
   \<and> alu (CPU_init\<lparr>reg := [0, 255, 0, 0, 0, 0, 0, 244]\<rparr>) CMP 0 2
     = Inr (CPU_init\<lparr>reg := [0, 255, 0, 0, 0, 0, 0, 244], fl := 1\<rparr>)"
  using alu_cmp_one_flag [of "CPU_init\<lparr>reg := [0, 255, 0, 0, 0, 0, 0, 244]\<rparr>" 0 1]
    alu_cmp_one_flag [of "CPU_init\<lparr>reg := [0, 255, 0, 0, 0, 0, 0, 244]\<rparr>" 1 0]
    alu_cmp_one_flag [of "CPU_init\<lparr>reg := [0, 255, 0, 0, 0, 0, 0, 244]\<rparr>" 0 2]
  by simp

section \<open>Properties of the stack handlers\<close>




text \<open>
  Claim C7, as the code has it. In every machine state with its eight registers and
  256 memory cells whose stack pointer less one still indexes memory
  (\<open>-255 \<le> reg[7] \<le> 256\<close>, which holds of every stack pointer in 0..255), and for every register index
  \<open>r\<close> in 0..7 (the stack pointer itself included): push on \<open>r\<close> succeeds and leaves
  \<open>reg[7]\<close> one lower, and pop on \<open>r\<close> after it gives back the register file of the
  start, so \<open>reg[r]\<close>, the stack pointer and every other register have their
  original values; the only trace is the pushed value in the stack cell.
\<close>

theorem push_then_pop:
  assumes "length (reg s) = 8" "length (ram s) = 256" "0 \<le> r" "r < 8"
    and "- 255 \<le> reg s ! 7" "reg s ! 7 \<le> 256"
  shows "\<exists>s1 s2. push s r x = Inr s1 \<and> pop s1 r y = Inr s2
           \<and> reg s1 ! 7 = reg s ! 7 - 1
           \<and> reg s2 = reg s
           \<and> s2 = s\<lparr>ram := (ram s)[nat ((reg s ! 7 - 1) mod 256) := reg s1 ! nat r]\<rparr>"
proof -
  let ?R = "(reg s)[7 := reg s ! 7 - 1]"
  let ?k = "nat ((reg s ! 7 - 1) mod 256)"
  let ?v = "?R ! nat r"
  let ?s1 = "s\<lparr>reg := ?R, ram := (ram s)[?k := ?v]\<rparr>"
  let ?s2 = "s\<lparr>ram := (ram s)[?k := ?v]\<rparr>"
  have k: "?k < 256" by simp
  have p: "push s r x = Inr ?s1"
    using assms by (simp add: push_def SP_def reg_get_valid reg_set_valid ram_write_valid)
  have R: "?R[nat r := ?v, 7 := reg s ! 7] = reg s"
    using assms by (cases "nat r = 7") (simp_all add: list_update_swap)
  have q: "pop ?s1 r y = Inr ?s2"
    using assms k R by (simp add: pop_def SP_def reg_get_valid reg_set_valid ram_read_valid)
  have "reg ?s1 ! 7 = reg s ! 7 - 1" "reg ?s2 = reg s"
    "?s2 = s\<lparr>ram := (ram s)[?k := reg ?s1 ! nat r]\<rparr>"
    using assms by simp_all
  with p q show ?thesis by blast
qed

theorem push_then_pop_witness:
  "push (CPU_init\<lparr>reg := [42, 0, 0, 0, 0, 0, 0, 244]\<rparr>) 0 0
     = Inr (CPU_init\<lparr>reg := [42, 0, 0, 0, 0, 0, 0, 243], ram := (replicate 256 0)[243 := 42]\<rparr>)
   \<and> pop (CPU_init\<lparr>reg := [42, 0, 0, 0, 0, 0, 0, 243], ram := (replicate 256 0)[243 := 42]\<rparr>) 0 0
     = Inr (CPU_init\<lparr>reg := [42, 0, 0, 0, 0, 0, 0, 244], ram := (replicate 256 0)[243 := 42]\<rparr>)"
proof -
  let ?s = "CPU_init\<lparr>reg := [42, 0, 0, 0, 0, 0, 0, 244]\<rparr>"
  from push_then_pop [of ?s 0 0 0]
  obtain s1 s2 where h: "push ?s 0 0 = Inr s1" "pop s1 0 0 = Inr s2"
    "s2 = ?s\<lparr>ram := (ram ?s)[nat ((reg ?s ! 7 - 1) mod 256) := reg s1 ! nat 0]\<rparr>"
    by (auto simp: CPU_init_fields)
  have "push ?s 0 0
      = Inr (CPU_init\<lparr>reg := [42, 0, 0, 0, 0, 0, 0, 243], ram := (replicate 256 0)[243 := 42]\<rparr>)"
    by (simp add: push_def SP_def reg_get_def reg_set_def ram_write_def py_index_def CPU_init_fields)
  with h show ?thesis by (auto simp: CPU_init_fields)
qed

text \<open>
  Claim C7, as the spec states it for every machine state, fails. With 488 in
  register 7 the push handler decrements it to 487 and the write to memory raises
  \<^verbatim>\<open>IndexError\<close>: nothing is pushed, and the stack pointer is not restored. The
  state is one the machine reaches: the program \<^verbatim>\<open>ADD R7, R7; PUSH R0\<close> run from
  the initial state ends in that \<^verbatim>\<open>IndexError\<close>, with the stack pointer left at
  487.
\<close>

theorem push_sp_out_of_range_counterexample:
  "push (CPU_init\<lparr>reg := [0, 0, 0, 0, 0, 0, 0, 488]\<rparr>) 0 0
     = Inl (IndexError, CPU_init\<lparr>reg := [0, 0, 0, 0, 0, 0, 0, 487]\<rparr>)
   \<and> run (CPU_init\<lparr>ram := [160, 7, 7, 69, 0] @ replicate 251 0\<rparr>)
     = Some (Inl (IndexError, CPU_init\<lparr>ram := [160, 7, 7, 69, 0] @ replicate 251 0,
                     reg := [0, 0, 0, 0, 0, 0, 0, 487], ir := 69, pc := 3\<rparr>))"
proof -
  let ?p = "[160, 7, 7, 69, 0] @ replicate 251 (0::int)"
  let ?s0 = "CPU_init\<lparr>ram := ?p\<rparr>"
  let ?s1 = "CPU_init\<lparr>ram := ?p, reg := [0, 0, 0, 0, 0, 0, 0, 488], ir := 160, pc := 3\<rparr>"
  let ?s2 = "CPU_init\<lparr>ram := ?p, reg := [0, 0, 0, 0, 0, 0, 0, 487], ir := 69, pc := 3\<rparr>"
  have p: "length ?p = 256" "?p ! 0 = 160" "?p ! Suc 0 = 7" "?p ! 2 = 7" "?p ! 3 = 69" "?p ! 4 = 0"
    "?p ! 5 = 0"
    by (simp_all add: nth_append)
  have a: "push (CPU_init\<lparr>reg := [0, 0, 0, 0, 0, 0, 0, 488]\<rparr>) 0 0
      = Inl (IndexError, CPU_init\<lparr>reg := [0, 0, 0, 0, 0, 0, 0, 487]\<rparr>)"
    by (simp add: push_def SP_def reg_get_def reg_set_def ram_write_def py_index_def
        CPU_init_fields)
  have step1: "cycle ?s0 = Inr ?s1"
    using p by (simp add: cycle_def Let_def ram_read_def py_index_def CPU_init_fields CPU_init_reg
      dispatch_def is_alu_op_def pc_setter_def num_args_def alu_def alu_store_def
      reg_get_def reg_set_def opcode_defs del: append.simps)
  have step2: "cycle ?s1 = Inl (IndexError, ?s2)"
    using p by (simp add: cycle_def Let_def ram_read_def py_index_def CPU_init_fields
      dispatch_def is_alu_op_def branchtable_def push_def SP_def
      reg_get_def reg_set_def ram_write_def opcode_defs del: append.simps)
  have h: "\<not> halted ?s0" "\<not> halted ?s1"
    by (simp_all add: CPU_init_fields)
  have "run ?s0 = run ?s1"
    using h(1) step1 by (rule run_step)
  also have "\<dots> = Some (Inl (IndexError, ?s2))"
    using h(2) step2 by (rule run_raises)
  finally have r: "run ?s0 = Some (Inl (IndexError, ?s2))" .
  show ?thesis by (intro conjI a r)
qed

section \<open>Properties of the run loop\<close>



text \<open>
  Claim C3, as the code has it. The PC is 0 in the initial state, and every cycle
  that completes fetched at a PC in \<open>[-256, 253]\<close>, where the PC and the two
  addresses after it all index the 256-cell memory the way Python indexes a list.
  After a cycle the PC is not confined to \<open>[0, 255]\<close>: an instruction that does not
  set the PC has one or two operands and leaves the PC at the old PC plus
  \<open>1 + operand count\<close>, and a PC-setting handler leaves a value it took unreduced from
  a register or a memory cell, or the old PC plus 2.
\<close>

theorem pc_after_cycle:
  "pc CPU_init = 0
   \<and> (length (ram s) = 256 \<and> ram_read s (pc s) = Inr i \<and> cycle s = Inr s' \<longrightarrow>
        - 256 \<le> pc s \<and> pc s \<le> 253
        \<and> (\<not> bit i 4 \<longrightarrow> pc s' = pc s + 1 + i div 64 \<and> 1 \<le> i div 64 \<and> i div 64 \<le> 2)
        \<and> (bit i 4 \<longrightarrow> pc s' \<in> set (reg s') \<union> set (ram s') \<union> {pc s + 2}))"
proof -
  have "- 256 \<le> pc s \<and> pc s \<le> 253
        \<and> (\<not> bit i 4 \<longrightarrow> pc s' = pc s + 1 + i div 64 \<and> 1 \<le> i div 64 \<and> i div 64 \<le> 2)
        \<and> (bit i 4 \<longrightarrow> pc s' \<in> set (reg s') \<union> set (ram s') \<union> {pc s + 2})"
    if len: "length (ram s) = 256" and f: "ram_read s (pc s) = Inr i" and c: "cycle s = Inr s'"
  proof -
    from f c obtain a b s2 where
      ab: "ram_read s (pc s + 1) = Inr a" "ram_read s (pc s + 2) = Inr b"
      and dp: "dispatch (s\<lparr>ir := i\<rparr>) a b = Inr s2"
      and s': "s' = (if pc_setter i \<noteq> 1 then s2\<lparr>pc := pc s2 + (num_args i + 1)\<rparr> else s2)"
      by (auto simp: cycle_Inr_iff)
    from ram_read_range [OF len f] ram_read_range [OF len ab(2)]
    have r: "- 256 \<le> pc s \<and> pc s \<le> 253" by simp
    have n: "pc s' = pc s + 1 + i div 64 \<and> 1 \<le> i div 64 \<and> i div 64 \<le> 2" if "\<not> bit i 4"
      using dispatch_keeps_pc [OF dp] that s' by (simp add: decode_fields)
    have p: "pc s' \<in> set (reg s') \<union> set (ram s') \<union> {pc s + 2}" if "bit i 4"
      using dispatch_sets_pc [OF dp] that s' by (simp add: decode_fields)
    from r n p show ?thesis by blast
  qed
  then show ?thesis by (simp add: CPU_init_fields)
qed

theorem pc_after_cycle_witness:
  "length (ram (CPU_init\<lparr>ram := [84, 7] @ replicate 254 0\<rparr>)) = 256
   \<and> cycle (CPU_init\<lparr>ram := [84, 7] @ replicate 254 0\<rparr>)
       = Inr (CPU_init\<lparr>ram := [84, 7] @ replicate 254 0, ir := 84, pc := 244\<rparr>)
   \<and> (244::int) \<in> set (reg CPU_init) \<union> set ([84, 7] @ replicate 254 0) \<union> {0 + 2}"
proof -
  let ?s = "CPU_init\<lparr>ram := [84, 7] @ replicate 254 0\<rparr>"
  let ?s' = "CPU_init\<lparr>ram := [84, 7] @ replicate 254 0, ir := 84, pc := 244\<rparr>"
  have l: "length (ram ?s) = 256" by simp
  have f: "ram_read ?s (pc ?s) = Inr 84"
    by (simp add: ram_read_def py_index_def CPU_init_fields)
  have c: "cycle ?s = Inr ?s'"
    by (simp add: cycle_def Let_def ram_read_def py_index_def CPU_init_fields CPU_init_reg
        nth_append dispatch_def is_alu_op_def pc_setter_def num_args_def branchtable_def
        jmp_def reg_get_def opcode_defs)
  from pc_after_cycle [of ?s 84 ?s'] l f c show ?thesis
    by (simp add: CPU_init_fields)
qed

text \<open>
  Claim C3, as the spec states it, fails. From the initial state with the program
  \<^verbatim>\<open>ADD R7, R7; JMP R7\<close> in memory, the first cycle leaves \<open>2 * 244 = 488\<close> in
  register 7 and the second sets the PC to it: after two cycles of the loop the PC is
  488, outside \<open>[0, 255]\<close>, and the run ends in the \<^verbatim>\<open>IndexError\<close> of the third
  fetch with the PC still 488.
\<close>

theorem pc_leaves_byte_range_counterexample:
  "cycles 2 (CPU_init\<lparr>ram := [160, 7, 7, 84, 7] @ replicate 251 0\<rparr>)
     = Inr (CPU_init\<lparr>ram := [160, 7, 7, 84, 7] @ replicate 251 0,
                     reg := [0, 0, 0, 0, 0, 0, 0, 488], ir := 84, pc := 488\<rparr>)
   \<and> run (CPU_init\<lparr>ram := [160, 7, 7, 84, 7] @ replicate 251 0\<rparr>)
     = Some (Inl (IndexError, CPU_init\<lparr>ram := [160, 7, 7, 84, 7] @ replicate 251 0,
                     reg := [0, 0, 0, 0, 0, 0, 0, 488], ir := 84, pc := 488\<rparr>))
   \<and> \<not> (488 \<le> (255::int))"
proof -
  let ?p = "[160, 7, 7, 84, 7] @ replicate 251 (0::int)"
  let ?r = "[0, 0, 0, 0, 0, 0, 0, 488::int]"
  let ?s0 = "CPU_init\<lparr>ram := ?p\<rparr>"
  let ?s1 = "CPU_init\<lparr>ram := ?p, reg := ?r, ir := 160, pc := 3\<rparr>"
  let ?s2 = "CPU_init\<lparr>ram := ?p, reg := ?r, ir := 84, pc := 488\<rparr>"
  have p: "length ?p = 256" "?p ! 0 = 160" "?p ! Suc 0 = 7" "?p ! 2 = 7" "?p ! 3 = 84" "?p ! 4 = 7"
    by (simp_all add: nth_append)
  have step1: "cycle ?s0 = Inr ?s1"
    using p by (simp add: cycle_def Let_def ram_read_def py_index_def CPU_init_fields CPU_init_reg
      dispatch_def is_alu_op_def pc_setter_def num_args_def alu_def alu_store_def
      reg_get_def reg_set_def opcode_defs del: append.simps)
  have step2: "cycle ?s1 = Inr ?s2"
    using p by (simp add: cycle_def Let_def ram_read_def py_index_def CPU_init_fields
      dispatch_def is_alu_op_def pc_setter_def num_args_def branchtable_def jmp_def
      reg_get_def opcode_defs del: append.simps)
  have step3: "cycle ?s2 = Inl (IndexError, ?s2)"
    using p by (simp add: cycle_def Let_def ram_read_def py_index_def del: append.simps)
  have h: "\<not> halted ?s0" "\<not> halted ?s1" "\<not> halted ?s2"
    by (simp_all add: CPU_init_fields)
  have c: "cycles 2 ?s0 = Inr ?s2"
    using h by (simp add: numeral_2_eq_2 step1 step2 del: append.simps)
  have "run ?s0 = run ?s2"
    by (rule cycles_run [OF c])
  also have "\<dots> = Some (Inl (IndexError, ?s2))"
    using h(3) step3 by (rule run_raises)
  finally have r: "run ?s0 = Some (Inl (IndexError, ?s2))" .
  have n: "\<not> (488 \<le> (255::int))" by simp
  show ?thesis by (intro conjI c r n)
qed

text \<open>
  Claim C9. When the loop is running and the instruction and its two operand bytes
  can be read, an instruction that is not one of the opcodes of the instruction set
  ends the run with an exception: \<^verbatim>\<open>Exception("Unsupported ALU operation")\<close> if
  its bit 5 is set, the \<^verbatim>\<open>KeyError\<close> of the branch-table lookup if not. Nothing
  but the instruction register has changed by then.
\<close>

theorem unknown_opcode_stops:
  assumes "\<not> halted s"
    and "ram_read s (pc s) = Inr i" "ram_read s (pc s + 1) = Inr a" "ram_read s (pc s + 2) = Inr b"
    and "i \<notin> opcodes"
  shows "run s = Some (Inl (if bit i 5 then UnsupportedALU else KeyError i, s\<lparr>ir := i\<rparr>))"
  using assms(1) cycle_unknown_opcode [OF assms(2-5)] by (rule run_raises)

theorem unknown_opcode_stops_witness:
  "run CPU_init = Some (Inl (KeyError 0, CPU_init))
   \<and> run (CPU_init\<lparr>ram := 32 # replicate 255 0\<rparr>)
       = Some (Inl (UnsupportedALU, CPU_init\<lparr>ram := 32 # replicate 255 0, ir := 32\<rparr>))"
proof -
  let ?t = "CPU_init\<lparr>ram := 32 # replicate 255 0\<rparr>"
  have o: "(0::int) \<notin> opcodes" "(32::int) \<notin> opcodes"
    by (simp_all add: opcodes_def opcode_defs)
  have h: "\<not> halted CPU_init" "\<not> halted ?t"
    by (simp_all add: CPU_init_fields)
  have r0: "ram_read CPU_init (pc CPU_init) = Inr 0" "ram_read CPU_init (pc CPU_init + 1) = Inr 0"
    "ram_read CPU_init (pc CPU_init + 2) = Inr 0"
    by (simp_all add: ram_read_def py_index_def CPU_init_fields)
  have r1: "ram_read ?t (pc ?t) = Inr 32" "ram_read ?t (pc ?t + 1) = Inr 0"
    "ram_read ?t (pc ?t + 2) = Inr 0"
    by (simp_all add: ram_read_def py_index_def CPU_init_fields)
  have i0: "CPU_init\<lparr>ir := 0\<rparr> = CPU_init"
    by (simp add: CPU_init_def)
  from unknown_opcode_stops [OF h(1) r0 o(1)] unknown_opcode_stops [OF h(2) r1 o(2)]
  show ?thesis by (simp add: i0)
qed

text \<open>
  Claim C10. The loop body reads the bytes at \<open>PC + 1\<close> and \<open>PC + 2\<close> before it
  dispatches, whatever the instruction: if either address does not index the 256-cell
  memory, the cycle raises \<^verbatim>\<open>IndexError\<close> with only the instruction register
  changed. With the PC at 254 or 255 that is the case for every instruction, the
  zero-operand halt included, and the run ends with that \<^verbatim>\<open>IndexError\<close>.
\<close>

theorem operands_read_unconditionally:
  assumes "length (ram s) = 256" "\<not> halted s"
  shows "(ram_read s (pc s) = Inr i
            \<and> (py_index 256 (pc s + 1) = None \<or> py_index 256 (pc s + 2) = None)
            \<longrightarrow> cycle s = Inl (IndexError, s\<lparr>ir := i\<rparr>))
       \<and> (pc s = 254 \<or> pc s = 255 \<longrightarrow>
            cycle s = Inl (IndexError, s\<lparr>ir := ram s ! nat (pc s)\<rparr>)
          \<and> run s = Some (Inl (IndexError, s\<lparr>ir := ram s ! nat (pc s)\<rparr>)))"
proof -
  have A: "cycle s = Inl (IndexError, s\<lparr>ir := j\<rparr>)"
    if "ram_read s (pc s) = Inr j" "py_index 256 (pc s + 1) = None \<or> py_index 256 (pc s + 2) = None"
    for j
  proof (cases "py_index 256 (pc s + 1)")
    case None
    with that(1) assms(1) show ?thesis by (simp add: cycle_def Let_def ram_read_def)
  next
    case (Some k)
    with that assms(1) show ?thesis by (auto simp add: cycle_def Let_def ram_read_def bnd_def)
  qed
  have B: "cycle s = Inl (IndexError, s\<lparr>ir := ram s ! nat (pc s)\<rparr>)" if "pc s = 254 \<or> pc s = 255"
  proof (rule A)
    show "ram_read s (pc s) = Inr (ram s ! nat (pc s))"
      using that assms(1) by (auto simp: ram_read_def py_index_def)
    show "py_index 256 (pc s + 1) = None \<or> py_index 256 (pc s + 2) = None"
      using that by (auto simp: py_index_def)
  qed
  from A B run_raises [OF assms(2)] show ?thesis by auto
qed

theorem operands_read_unconditionally_witness:
  "run (CPU_init\<lparr>ram := (replicate 256 0)[254 := 1], pc := 254\<rparr>)
     = Some (Inl (IndexError, CPU_init\<lparr>ram := (replicate 256 0)[254 := 1], pc := 254, ir := 1\<rparr>))"
  using operands_read_unconditionally
    [of "CPU_init\<lparr>ram := (replicate 256 0)[254 := 1], pc := 254\<rparr>"]
  by (simp add: CPU_init_fields)

section \<open>The main program\<close>

text \<open>
  With any number of arguments other than one, the script prints its two usage lines
  and creates no machine: nothing is loaded and nothing is run.
\<close>

lemma main_usage:
  "length argv \<noteq> 2 \<Longrightarrow>
   main fs int_base2 argv = Usage [PStr ''Wrong number of arguments passed in.'', PList argv]"
  by (simp add: main_def)

text \<open>
  Claim C2 against the code. With a program file that does not exist, \<^verbatim>\<open>load\<close>
  prints \<^verbatim>\<open>File not found.\<close> and returns, and the script goes on to
  \<^verbatim>\<open>cpu.run()\<close>: the loop fetches the 0 at address 0, reads both operands, and the
  branch-table lookup of 0 raises \<^verbatim>\<open>KeyError\<close>. The machine is executed and faults,
  where the claim has it never entered.
\<close>

theorem missing_file_is_run:
  "main no_files int_base2 [''ls8_sprint.py'', ''missing.ls8'']
     = Ran (Some (Inl (KeyError 0, CPU_init\<lparr>out := [PStr ''File not found.'']\<rparr>)))"
proof -
  let ?s = "CPU_init\<lparr>out := [PStr ''File not found.'']\<rparr>"
  have ld: "load no_files int_base2 CPU_init ''missing.ls8'' = Inr ?s"
    by (simp add: load_def no_files_def CPU_init_fields)
  have rd: "ram_read ?s (pc ?s) = Inr 0" "ram_read ?s (pc ?s + 1) = Inr 0"
    "ram_read ?s (pc ?s + 2) = Inr 0"
    by (simp_all add: ram_read_def py_index_def CPU_init_fields)
  have o: "(0::int) \<notin> opcodes"
    by (simp add: opcodes_def opcode_defs)
  have i0: "?s\<lparr>ir := 0\<rparr> = ?s"
    by (simp add: CPU_init_def)
  have "cycle ?s = Inl (KeyError 0, ?s\<lparr>ir := 0\<rparr>)"
    using cycle_unknown_opcode [OF rd o] by simp
  then have "cycle ?s = Inl (KeyError 0, ?s)"
    by (simp only: i0)
  moreover have "\<not> halted ?s" by (simp add: CPU_init_fields)
  ultimately have "run ?s = Some (Inl (KeyError 0, ?s))"
    by (simp add: run_raises)
  with ld show ?thesis by (simp add: main_def)
qed

end
